theory Spec2Isabelle
  imports Complex_Main "HOL-Library.Sublist"
begin

section \<open>The molecular-similarity notebook (python/chemistry/chemistry.ipynb)\<close>

text \<open>
  The notebook reads a tab-separated file of molecule names and SMILES strings, parses it
  into a list of records, scans the list for the record whose fingerprint is most similar
  to a query, and prints the match. Fingerprints and similarity scores come from the
  external toolkit \<^verbatim>\<open>rdkit\<close>, which is a parameter of the model.
\<close>

subsection \<open>Data model\<close>

text \<open>A record of the list \<^verbatim>\<open>molecules\<close>: the dict \<^verbatim>\<open>{'name': ..., 'smiles': ...}\<close>.\<close>

record molecule =
  name :: string
  smiles :: string

text \<open>
  The exceptions a run can end with: one raised inside the toolkit (carrying the toolkit's
  own error value), or one of the two that the interpreter raises in the notebook's own
  statements.
\<close>

datatype 'e error = LibraryError 'e | UnboundLocalError | IndexError

text \<open>
  The three toolkit functions the search calls. Each may raise (\<open>Inl\<close>). The type
  \<open>'mol\<close> holds whatever \<^verbatim>\<open>Chem.MolFromSmiles\<close> returns (Python's \<^verbatim>\<open>None\<close> for a string
  it cannot parse included), \<open>'fp\<close> the fingerprints. A similarity score is a Python
  float; the model takes it as the real number it denotes (the comparisons of the search
  are then the order of the reals), so a score that is not a number is outside the model.
\<close>

record ('mol, 'fp, 'e) rdkit =
  MolFromSmiles :: "string \<Rightarrow> 'e + 'mol"
  RDKFingerprint :: "'mol \<Rightarrow> 'e + 'fp"
  FingerprintSimilarity :: "'fp \<Rightarrow> 'fp \<Rightarrow> 'e + real"

text \<open>The local variables of \<^verbatim>\<open>most_similar\<close> that the loop updates; \<open>None\<close> is an
  unbound \<^verbatim>\<open>best_mol\<close>.\<close>

record locals =
  max_similarity :: real
  best_mol :: "molecule option"

text \<open>
  The global variables of the notebook and what it has printed. \<open>nb_best_mol\<close> is the
  global \<^verbatim>\<open>best_mol\<close>, which the local variable of \<^verbatim>\<open>most_similar\<close> shadows inside the
  function. The cells run in the order of the notebook, so every global is assigned
  before it is read, and the values the globals start with are never read.
\<close>

record notebook =
  lines :: "string list"
  molecules :: "molecule list"
  query_smiles :: string
  nb_best_mol :: molecule
  stdout :: string

abbreviation TAB :: char where "TAB \<equiv> CHR 0x09"
abbreviation NL :: char where "NL \<equiv> CHR 0x0A"

subsection \<open>Loading and parsing\<close>

text \<open>Python's \<^verbatim>\<open>s.split(sep)\<close> for a one-character separator: the fields between the
  separators, empty ones kept; never the empty list.\<close>

fun str_split :: "char \<Rightarrow> string \<Rightarrow> string list" where
  "str_split sep [] = [[]]"
| "str_split sep (c # cs) =
     (if c = sep then [] # str_split sep cs
      else (case str_split sep cs of
              [] \<Rightarrow> [[c]]
            | w # ws \<Rightarrow> (c # w) # ws))"

text \<open>\<^verbatim>\<open>print(x)\<close> writes \<open>x\<close> and a newline.\<close>

definition print :: "string \<Rightarrow> notebook \<Rightarrow> notebook" where
  "print x nb = nb\<lparr>stdout := stdout nb @ x @ [NL]\<rparr>"

text \<open>
  The loading cell, on the text that \<^verbatim>\<open>f.read()\<close> returns:
  \<^verbatim>\<open>
  lines = f.read().split('\n')
  print(lines[0])
  del lines[0]
  del lines[-1]
  \<close>
  \<^verbatim>\<open>del lines[-1]\<close> raises IndexError on an empty list. The result is the exception
  raised, if any, and the notebook as the cell leaves it.
\<close>

definition load_cell :: "string \<Rightarrow> notebook \<Rightarrow> 'e error option \<times> notebook" where
  "load_cell content nb =
     (case str_split NL content of
        [] \<Rightarrow> (Some IndexError, nb\<lparr>lines := []\<rparr>)
      | header # rest \<Rightarrow>
          (let nb1 = print header (nb\<lparr>lines := header # rest\<rparr>);
               nb2 = nb1\<lparr>lines := rest\<rparr>
           in if rest = [] then (Some IndexError, nb2)
              else (None, nb2\<lparr>lines := butlast rest\<rparr>)))"

text \<open>
  The parsing cell:
  \<^verbatim>\<open>
  molecules = []
  for l in lines:
      elements = l.split('\t')
      molecules.append({'name': elements[0], 'smiles': elements[1]})
  \<close>
  \<^verbatim>\<open>elements[1]\<close> raises IndexError when the line has a single field; \<open>acc\<close> is the list
  \<^verbatim>\<open>molecules\<close> built so far.
\<close>

fun parse_loop :: "string list \<Rightarrow> molecule list \<Rightarrow> 'e error option \<times> molecule list" where
  "parse_loop [] acc = (None, acc)"
| "parse_loop (l # ls) acc =
     (case str_split TAB l of
        e0 # e1 # _ \<Rightarrow> parse_loop ls (acc @ [\<lparr>name = e0, smiles = e1\<rparr>])
      | _ \<Rightarrow> (Some IndexError, acc))"

definition parse_cell :: "notebook \<Rightarrow> 'e error option \<times> notebook" where
  "parse_cell nb =
     (case parse_loop (lines nb) [] of (err, ms) \<Rightarrow> (err, nb\<lparr>molecules := ms\<rparr>))"

subsection \<open>Search\<close>

text \<open>The expression \<^verbatim>\<open>Chem.RDKFingerprint(Chem.MolFromSmiles(s))\<close>: the inner call first.\<close>

definition smiles_fingerprint :: "('mol, 'fp, 'e) rdkit \<Rightarrow> string \<Rightarrow> 'e + 'fp" where
  "smiles_fingerprint lib s =
     (case MolFromSmiles lib s of
        Inl e \<Rightarrow> Inl e
      | Inr mol \<Rightarrow> RDKFingerprint lib mol)"

text \<open>
  The first two statements of the loop body:
  \<^verbatim>\<open>
  test_fp = Chem.RDKFingerprint(Chem.MolFromSmiles(test_mol['smiles']))
  similarity = DataStructs.FingerprintSimilarity(test_fp, query_fp)
  \<close>
\<close>

definition test_similarity :: "('mol, 'fp, 'e) rdkit \<Rightarrow> 'fp \<Rightarrow> molecule \<Rightarrow> 'e + real" where
  "test_similarity lib query_fp test_mol =
     (case smiles_fingerprint lib (smiles test_mol) of
        Inl e \<Rightarrow> Inl e
      | Inr test_fp \<Rightarrow> FingerprintSimilarity lib test_fp query_fp)"

text \<open>
  The loop \<^verbatim>\<open>for test_mol in tqdm(molecules, ...)\<close> (the progress bar yields the elements
  of the list in order), with the update
  \<^verbatim>\<open>
  if max_similarity < similarity < 1:
      max_similarity = similarity
      best_mol = test_mol
  \<close>
  An exception of the toolkit ends the loop.
\<close>

fun scan :: "('mol, 'fp, 'e) rdkit \<Rightarrow> 'fp \<Rightarrow> molecule list \<Rightarrow> locals \<Rightarrow> 'e error + locals" where
  "scan lib query_fp [] st = Inr st"
| "scan lib query_fp (test_mol # rest) st =
     (case test_similarity lib query_fp test_mol of
        Inl e \<Rightarrow> Inl (LibraryError e)
      | Inr similarity \<Rightarrow>
          scan lib query_fp rest
            (if max_similarity st < similarity \<and> similarity < 1
             then st\<lparr>max_similarity := similarity, best_mol := Some test_mol\<rparr>
             else st))"

text \<open>
  \<^verbatim>\<open>most_similar(query_smiles)\<close>, reading the global list \<^verbatim>\<open>molecules\<close> (the argument
  \<open>ms\<close>). \<^verbatim>\<open>return best_mol\<close> raises UnboundLocalError when no iteration assigned it.
\<close>

definition most_similar ::
  "('mol, 'fp, 'e) rdkit \<Rightarrow> molecule list \<Rightarrow> string \<Rightarrow> 'e error + molecule" where
  "most_similar lib ms q =
     (case smiles_fingerprint lib q of
        Inl e \<Rightarrow> Inl (LibraryError e)
      | Inr query_fp \<Rightarrow>
          (case scan lib query_fp ms \<lparr>max_similarity = 0, best_mol = None\<rparr> of
             Inl err \<Rightarrow> Inl err
           | Inr st \<Rightarrow>
               (case best_mol st of
                  None \<Rightarrow> Inl UnboundLocalError
                | Some m \<Rightarrow> Inr m)))"

subsection \<open>The remaining cells and a run of the notebook\<close>

text \<open>\<^verbatim>\<open>query_smiles = input(...)\<close>, on the line typed at the console. The prompt goes to
  the console, not to the printed output.\<close>

definition input_cell :: "string \<Rightarrow> notebook \<Rightarrow> notebook" where
  "input_cell typed nb = nb\<lparr>query_smiles := typed\<rparr>"

text \<open>\<^verbatim>\<open>best_mol = most_similar(query_smiles)\<close>: the global is assigned only when the call
  returns.\<close>

definition search_cell :: "('mol, 'fp, 'e) rdkit \<Rightarrow> notebook \<Rightarrow> 'e error option \<times> notebook" where
  "search_cell lib nb =
     (case most_similar lib (molecules nb) (query_smiles nb) of
        Inl err \<Rightarrow> (Some err, nb)
      | Inr m \<Rightarrow> (None, nb\<lparr>nb_best_mol := m\<rparr>))"

text \<open>
  \<^verbatim>\<open>
  print("The best match was:")
  print(best_mol['name'])
  print(best_mol['smiles'])
  \<close>
\<close>

definition report_cell :: "notebook \<Rightarrow> notebook" where
  "report_cell nb =
     print (smiles (nb_best_mol nb))
       (print (name (nb_best_mol nb))
          (print ''The best match was:'' nb))"

text \<open>
  The cells in the order of the notebook, up to the report; a cell that raises stops the
  run. The two visualisation cells that follow only hand the query and the match to the
  toolkit's drawing routine and are not part of the model.
\<close>

definition run_notebook ::
  "('mol, 'fp, 'e) rdkit \<Rightarrow> string \<Rightarrow> string \<Rightarrow> notebook \<Rightarrow> 'e error option \<times> notebook" where
  "run_notebook lib content typed nb =
     (case load_cell content nb of
        (Some err, nb1) \<Rightarrow> (Some err, nb1)
      | (None, nb1) \<Rightarrow>
          (case parse_cell nb1 of
             (Some err, nb2) \<Rightarrow> (Some err, nb2)
           | (None, nb2) \<Rightarrow>
               (case search_cell lib (input_cell typed nb2) of
                  (Some err, nb3) \<Rightarrow> (Some err, nb3)
                | (None, nb3) \<Rightarrow> (None, report_cell nb3))))"

subsection \<open>The toolkit calls a search makes\<close>

text \<open>
  The sequence of toolkit calls that \<^verbatim>\<open>most_similar\<close> makes, each tagged with the SMILES
  string it is made for. The functions follow \<open>smiles_fingerprint\<close>, \<open>test_similarity\<close>,
  \<open>scan\<close> and \<open>most_similar\<close> statement by statement: a call is recorded when it is made,
  and a call that raises is the last one.
\<close>

datatype call =
  MolFromSmiles_call string | RDKFingerprint_call string | FingerprintSimilarity_call string

definition smiles_fingerprint_calls :: "('mol, 'fp, 'e) rdkit \<Rightarrow> string \<Rightarrow> call list" where
  "smiles_fingerprint_calls lib s =
     MolFromSmiles_call s #
       (case MolFromSmiles lib s of
          Inl e \<Rightarrow> []
        | Inr mol \<Rightarrow> [RDKFingerprint_call s])"

definition test_similarity_calls :: "('mol, 'fp, 'e) rdkit \<Rightarrow> molecule \<Rightarrow> call list" where
  "test_similarity_calls lib test_mol =
     smiles_fingerprint_calls lib (smiles test_mol) @
       (case smiles_fingerprint lib (smiles test_mol) of
          Inl e \<Rightarrow> []
        | Inr test_fp \<Rightarrow> [FingerprintSimilarity_call (smiles test_mol)])"

fun scan_calls :: "('mol, 'fp, 'e) rdkit \<Rightarrow> 'fp \<Rightarrow> molecule list \<Rightarrow> call list" where
  "scan_calls lib query_fp [] = []"
| "scan_calls lib query_fp (test_mol # rest) =
     test_similarity_calls lib test_mol @
       (case test_similarity lib query_fp test_mol of
          Inl e \<Rightarrow> []
        | Inr similarity \<Rightarrow> scan_calls lib query_fp rest)"

definition most_similar_calls ::
  "('mol, 'fp, 'e) rdkit \<Rightarrow> molecule list \<Rightarrow> string \<Rightarrow> call list" where
  "most_similar_calls lib ms q =
     smiles_fingerprint_calls lib q @
       (case smiles_fingerprint lib q of
          Inl e \<Rightarrow> []
        | Inr query_fp \<Rightarrow> scan_calls lib query_fp ms)"

subsection \<open>The linear scan as a left fold\<close>

text \<open>
  The reference the search is compared with, written from the description "a linear scan
  over the records, computing a similarity score against the query and tracking the
  maximum": the scores of all records are paired with the records, and one left fold over
  the pairs keeps the best record so far. A score that is an exception stops the fold's
  updates.
\<close>

definition reference_step ::
  "'e error + locals \<Rightarrow> molecule \<times> ('e + real) \<Rightarrow> 'e error + locals" where
  "reference_step acc p =
     (case acc of
        Inl err \<Rightarrow> Inl err
      | Inr st \<Rightarrow>
          (case snd p of
             Inl e \<Rightarrow> Inl (LibraryError e)
           | Inr s \<Rightarrow>
               Inr (if max_similarity st < s \<and> s < 1
                    then \<lparr>max_similarity = s, best_mol = Some (fst p)\<rparr>
                    else st)))"

definition most_similar_reference ::
  "('mol, 'fp, 'e) rdkit \<Rightarrow> molecule list \<Rightarrow> string \<Rightarrow> 'e error + molecule" where
  "most_similar_reference lib ms q =
     (case smiles_fingerprint lib q of
        Inl e \<Rightarrow> Inl (LibraryError e)
      | Inr query_fp \<Rightarrow>
          (case foldl reference_step (Inr \<lparr>max_similarity = 0, best_mol = None\<rparr>)
                  (map (\<lambda>m. (m, test_similarity lib query_fp m)) ms) of
             Inl err \<Rightarrow> Inl err
           | Inr st \<Rightarrow>
               (case best_mol st of
                  None \<Rightarrow> Inl UnboundLocalError
                | Some m \<Rightarrow> Inr m)))"

text \<open>The calls of a scan that visits every record once, in list order, after the two
  calls for the query.\<close>

abbreviation (input) record_calls :: "molecule \<Rightarrow> call list" where
  "record_calls m \<equiv> [MolFromSmiles_call (smiles m), RDKFingerprint_call (smiles m),
                        FingerprintSimilarity_call (smiles m)]"

definition reference_calls :: "molecule list \<Rightarrow> string \<Rightarrow> call list" where
  "reference_calls ms q =
     [MolFromSmiles_call q, RDKFingerprint_call q] @ concat (map (\<lambda>m. record_calls m) ms)"

subsection \<open>A small toolkit and database for concrete runs\<close>

text \<open>
  A stand-in toolkit on strings: a molecule is its SMILES string, a fingerprint is the
  molecule, the empty string has no fingerprint, and two fingerprints score 1 when equal,
  3/4 when they share their first two characters, 1/2 when they share the first, and 0
  otherwise.
\<close>

definition example_rdkit :: "(string, string, string) rdkit" where
  "example_rdkit =
     \<lparr>MolFromSmiles = (\<lambda>s. Inr s),
      RDKFingerprint = (\<lambda>mol. if mol = [] then Inl ''ArgumentError'' else Inr mol),
      FingerprintSimilarity = (\<lambda>a b.
         Inr (if a = b then 1
              else if take 2 a = take 2 b then 3 / 4
              else if take 1 a = take 1 b then 1 / 2
              else 0))\<rparr>"

definition mol :: "string \<Rightarrow> string \<Rightarrow> molecule" where
  "mol n s = \<lparr>name = n, smiles = s\<rparr>"

definition example_molecules :: "molecule list" where
  "example_molecules =
     [mol ''methane'' ''C'', mol ''ethanol'' ''CCO'', mol ''ammonia'' ''N'',
      mol ''propane'' ''CCC'', mol ''ethylamine'' ''CCN'']"

definition empty_notebook :: notebook where
  "empty_notebook =
     \<lparr>lines = [], molecules = [], query_smiles = [], nb_best_mol = mol [] [], stdout = []\<rparr>"

text \<open>A notebook that has been run before: every global holds a stale value.\<close>

definition used_notebook :: notebook where
  "used_notebook =
     \<lparr>lines = [''stale''], molecules = example_molecules, query_smiles = ''N'',
      nb_best_mol = mol ''ammonia'' ''N'', stdout = ''earlier output''\<rparr>"

text \<open>A database file: a header, three data lines (one with a third field), and the
  newline that ends the last line.\<close>

definition example_file :: string where
  "example_file =
     ''Name'' @ [TAB] @ ''Smiles'' @ [NL] @
     ''methane'' @ [TAB] @ ''C'' @ [NL] @
     ''ethanol'' @ [TAB] @ ''CCO'' @ [TAB] @ ''46.07'' @ [NL] @
     ''propane'' @ [TAB] @ ''CCC'' @ [NL]"

section \<open>Properties\<close>

subsection \<open>Splitting and parsing\<close>

text \<open>
  \<open>str_split\<close> behaves as Python's \<^verbatim>\<open>split\<close>: there is one field more than there are
  separators, no field contains the separator, and joining the fields with the separator
  gives the string back. A string has a second field exactly when it contains the
  separator.
\<close>

lemma str_split_not_Nil: "str_split sep s \<noteq> []"
  by (induction s) (auto split: list.splits)

lemma length_str_split: "length (str_split sep s) = Suc (length (filter (\<lambda>c. c = sep) s))"
  by (induction s) (auto split: list.splits simp: str_split_not_Nil)

lemma str_split_two_fields:
  "sep \<in> set s \<longleftrightarrow> (\<exists>e0 e1 es. str_split sep s = e0 # e1 # es)"
proof -
  have "sep \<in> set s \<longleftrightarrow> 2 \<le> length (str_split sep s)"
    by (simp add: length_str_split filter_empty_conv Suc_le_eq)
  also have "\<dots> \<longleftrightarrow> (\<exists>e0 e1 es. str_split sep s = e0 # e1 # es)"
    by (cases "str_split sep s" rule: list.exhaust; cases "tl (str_split sep s)") auto
  finally show ?thesis .
qed

lemma str_split_first: "str_split sep s ! 0 = takeWhile (\<lambda>c. c \<noteq> sep) s"
  by (induction s) (auto split: list.splits simp: str_split_not_Nil)

lemma str_split_join: "concat (map (\<lambda>w. sep # w) (str_split sep s)) = sep # s"
  by (induction s) (auto split: list.splits simp: str_split_not_Nil)

lemma str_split_fields: "w \<in> set (str_split sep s) \<Longrightarrow> sep \<notin> set w"
  by (induction s arbitrary: w) (auto split: list.splits if_splits simp: str_split_not_Nil)

text \<open>The parsing loop in closed form: it appends the records of the lines before the
  first line without a tab, and raises exactly when there is such a line.\<close>

lemma parse_loop_eq:
  "parse_loop ls acc =
     (if \<forall>l\<in>set ls. TAB \<in> set l then None else Some IndexError,
      acc @ map (\<lambda>l. \<lparr>name = str_split TAB l ! 0, smiles = str_split TAB l ! 1\<rparr>)
              (takeWhile (\<lambda>l. TAB \<in> set l) ls))"
proof (induction ls arbitrary: acc)
  case Nil
  show ?case by simp
next
  case (Cons l ls)
  show ?case
  proof (cases "TAB \<in> set l")
    case True
    then obtain e0 e1 es where "str_split TAB l = e0 # e1 # es"
      using str_split_two_fields by blast
    with True Cons show ?thesis by simp
  next
    case False
    then have "\<nexists>e0 e1 es. str_split TAB l = e0 # e1 # es"
      using str_split_two_fields by blast
    with False show ?thesis by (auto split: list.splits)
  qed
qed

lemma takeWhile_all: "\<forall>x\<in>set xs. P x \<Longrightarrow> takeWhile P xs = xs"
  by (induction xs) auto

text \<open>The cells in closed form: what each leaves in the notebook, and when it raises.\<close>

lemma load_cell_eq:
  "load_cell content nb =
     (if tl (str_split NL content) = [] then Some IndexError else None,
      nb\<lparr>lines := butlast (tl (str_split NL content)),
         stdout := stdout nb @ hd (str_split NL content) @ [NL]\<rparr>)"
  by (cases "str_split NL content")
     (simp_all add: load_cell_def print_def Let_def str_split_not_Nil)

lemma parse_cell_eq:
  "parse_cell nb =
     (if \<forall>l\<in>set (lines nb). TAB \<in> set l then None else Some IndexError,
      nb\<lparr>molecules := map (\<lambda>l. \<lparr>name = str_split TAB l ! 0, smiles = str_split TAB l ! 1\<rparr>)
                         (takeWhile (\<lambda>l. TAB \<in> set l) (lines nb))\<rparr>)"
  by (simp add: parse_cell_def parse_loop_eq)

lemma example_file_lines:
  "str_split NL example_file =
     [''Name'' @ [TAB] @ ''Smiles'', ''methane'' @ [TAB] @ ''C'',
      ''ethanol'' @ [TAB] @ ''CCO'' @ [TAB] @ ''46.07'', ''propane'' @ [TAB] @ ''CCC'', []]"
  by (simp add: example_file_def)

subsection \<open>The scan\<close>

text \<open>
  What a completed scan leaves in the local variables: either nothing changed, and then no
  record scored strictly between the starting maximum and 1; or \<^verbatim>\<open>best_mol\<close> is a record
  \<open>r\<close> of the list whose score is the new maximum, every record before \<open>r\<close> that scores
  below 1 scores strictly less, and every record after \<open>r\<close> that scores below 1 scores no
  more.
\<close>

lemma scan_Inr_scores:
  "scan lib qfp ms st = Inr st' \<Longrightarrow> \<forall>m\<in>set ms. \<exists>s. test_similarity lib qfp m = Inr s"
  by (induction ms arbitrary: st) (auto split: sum.splits)

lemma scan_unchanged:
  "\<forall>m\<in>set ms. \<exists>s. test_similarity lib qfp m = Inr s \<and> (s \<le> max_similarity st \<or> 1 \<le> s)
   \<Longrightarrow> scan lib qfp ms st = Inr st"
  by (induction ms) (auto split: sum.splits)

lemma scan_result:
  "scan lib qfp ms st = Inr st' \<Longrightarrow>
     (st' = st \<and> (\<forall>m\<in>set ms. \<forall>s. test_similarity lib qfp m = Inr s \<longrightarrow> s \<le> max_similarity st \<or> 1 \<le> s))
   \<or> (\<exists>pre r post. ms = pre @ r # post \<and> best_mol st' = Some r
         \<and> test_similarity lib qfp r = Inr (max_similarity st')
         \<and> max_similarity st < max_similarity st' \<and> max_similarity st' < 1
         \<and> (\<forall>m\<in>set pre. \<forall>s. test_similarity lib qfp m = Inr s \<longrightarrow> s < 1 \<longrightarrow> s < max_similarity st')
         \<and> (\<forall>m\<in>set post. \<forall>s. test_similarity lib qfp m = Inr s \<longrightarrow> s < 1 \<longrightarrow> s \<le> max_similarity st'))"
proof (induction ms arbitrary: st)
  case Nil
  then show ?case by simp
next
  case (Cons m ms)
  from Cons.prems obtain s where s: "test_similarity lib qfp m = Inr s"
    by (auto split: sum.splits)
  let ?st1 = "if max_similarity st < s \<and> s < 1
              then st\<lparr>max_similarity := s, best_mol := Some m\<rparr> else st"
  from Cons.prems s have run: "scan lib qfp ms ?st1 = Inr st'" by simp
  note IH = Cons.IH [OF run]
  show ?case
  proof (cases "max_similarity st < s \<and> s < 1")
    case True
    from IH show ?thesis
    proof
      assume same: "st' = ?st1 \<and> (\<forall>m\<in>set ms. \<forall>t. test_similarity lib qfp m = Inr t \<longrightarrow> t \<le> max_similarity ?st1 \<or> 1 \<le> t)"
      have "m # ms = [] @ m # ms \<and> best_mol st' = Some m
         \<and> test_similarity lib qfp m = Inr (max_similarity st')
         \<and> max_similarity st < max_similarity st' \<and> max_similarity st' < 1
         \<and> (\<forall>x\<in>set []. \<forall>t. test_similarity lib qfp x = Inr t \<longrightarrow> t < 1 \<longrightarrow> t < max_similarity st')
         \<and> (\<forall>x\<in>set ms. \<forall>t. test_similarity lib qfp x = Inr t \<longrightarrow> t < 1 \<longrightarrow> t \<le> max_similarity st')"
        using same True s by auto
      then show ?thesis by blast
    next
      assume "\<exists>pre r post. ms = pre @ r # post \<and> best_mol st' = Some r
         \<and> test_similarity lib qfp r = Inr (max_similarity st')
         \<and> max_similarity ?st1 < max_similarity st' \<and> max_similarity st' < 1
         \<and> (\<forall>m\<in>set pre. \<forall>s. test_similarity lib qfp m = Inr s \<longrightarrow> s < 1 \<longrightarrow> s < max_similarity st')
         \<and> (\<forall>m\<in>set post. \<forall>s. test_similarity lib qfp m = Inr s \<longrightarrow> s < 1 \<longrightarrow> s \<le> max_similarity st')"
      then obtain pre r post where d: "ms = pre @ r # post" "best_mol st' = Some r"
         "test_similarity lib qfp r = Inr (max_similarity st')"
         "max_similarity ?st1 < max_similarity st'" "max_similarity st' < 1"
         "\<forall>m\<in>set pre. \<forall>s. test_similarity lib qfp m = Inr s \<longrightarrow> s < 1 \<longrightarrow> s < max_similarity st'"
         "\<forall>m\<in>set post. \<forall>s. test_similarity lib qfp m = Inr s \<longrightarrow> s < 1 \<longrightarrow> s \<le> max_similarity st'"
        by blast
      from d(4) True have lt: "s < max_similarity st'" "max_similarity st < max_similarity st'"
        by auto
      have "m # ms = (m # pre) @ r # post" using d(1) by simp
      moreover have "\<forall>x\<in>set (m # pre). \<forall>t. test_similarity lib qfp x = Inr t \<longrightarrow> t < 1 \<longrightarrow> t < max_similarity st'"
        using d(6) s lt(1) by auto
      ultimately show ?thesis using d(2,3,5,7) lt(2) by blast
    qed
  next
    case False
    from IH show ?thesis
    proof
      assume "st' = ?st1 \<and> (\<forall>m\<in>set ms. \<forall>t. test_similarity lib qfp m = Inr t \<longrightarrow> t \<le> max_similarity ?st1 \<or> 1 \<le> t)"
      with False s show ?thesis by auto
    next
      assume "\<exists>pre r post. ms = pre @ r # post \<and> best_mol st' = Some r
         \<and> test_similarity lib qfp r = Inr (max_similarity st')
         \<and> max_similarity ?st1 < max_similarity st' \<and> max_similarity st' < 1
         \<and> (\<forall>m\<in>set pre. \<forall>s. test_similarity lib qfp m = Inr s \<longrightarrow> s < 1 \<longrightarrow> s < max_similarity st')
         \<and> (\<forall>m\<in>set post. \<forall>s. test_similarity lib qfp m = Inr s \<longrightarrow> s < 1 \<longrightarrow> s \<le> max_similarity st')"
      then obtain pre r post where d: "ms = pre @ r # post" "best_mol st' = Some r"
         "test_similarity lib qfp r = Inr (max_similarity st')"
         "max_similarity ?st1 < max_similarity st'" "max_similarity st' < 1"
         "\<forall>m\<in>set pre. \<forall>s. test_similarity lib qfp m = Inr s \<longrightarrow> s < 1 \<longrightarrow> s < max_similarity st'"
         "\<forall>m\<in>set post. \<forall>s. test_similarity lib qfp m = Inr s \<longrightarrow> s < 1 \<longrightarrow> s \<le> max_similarity st'"
        by blast
      from d(4) False have lt: "s < 1 \<longrightarrow> s < max_similarity st'" "max_similarity st < max_similarity st'"
        by auto
      have "m # ms = (m # pre) @ r # post" using d(1) by simp
      moreover have "\<forall>x\<in>set (m # pre). \<forall>t. test_similarity lib qfp x = Inr t \<longrightarrow> t < 1 \<longrightarrow> t < max_similarity st'"
        using d(6) s lt(1) by auto
      ultimately show ?thesis using d(2,3,5,7) lt(2) by blast
    qed
  qed
qed

lemma scan_first_best:
  "\<forall>m\<in>set (pre @ r # post). \<exists>t. test_similarity lib qfp m = Inr t \<Longrightarrow>
   test_similarity lib qfp r = Inr s \<Longrightarrow> max_similarity st < s \<Longrightarrow> s < 1 \<Longrightarrow>
   \<forall>m\<in>set pre. \<forall>t. test_similarity lib qfp m = Inr t \<longrightarrow> t < 1 \<longrightarrow> t < s \<Longrightarrow>
   \<forall>m\<in>set post. \<forall>t. test_similarity lib qfp m = Inr t \<longrightarrow> t < 1 \<longrightarrow> t \<le> s \<Longrightarrow>
   \<exists>st'. scan lib qfp (pre @ r # post) st = Inr st' \<and> best_mol st' = Some r"
proof (induction pre arbitrary: st)
  case Nil
  let ?st1 = "st\<lparr>max_similarity := s, best_mol := Some r\<rparr>"
  have "\<forall>m\<in>set post. \<exists>t. test_similarity lib qfp m = Inr t \<and> (t \<le> max_similarity ?st1 \<or> 1 \<le> t)"
    using Nil.prems(1,6) by fastforce
  then have "scan lib qfp post ?st1 = Inr ?st1" by (rule scan_unchanged)
  with Nil.prems(2,3,4) show ?case by simp
next
  case (Cons m pre)
  from Cons.prems(1) obtain t where t: "test_similarity lib qfp m = Inr t" by auto
  let ?st1 = "if max_similarity st < t \<and> t < 1
              then st\<lparr>max_similarity := t, best_mol := Some m\<rparr> else st"
  have "max_similarity ?st1 < s" using Cons.prems(3,5) t by auto
  moreover have "\<forall>m\<in>set (pre @ r # post). \<exists>t. test_similarity lib qfp m = Inr t"
    using Cons.prems(1) by auto
  moreover have "\<forall>m\<in>set pre. \<forall>t. test_similarity lib qfp m = Inr t \<longrightarrow> t < 1 \<longrightarrow> t < s"
    using Cons.prems(5) by auto
  ultimately have "\<exists>st'. scan lib qfp (pre @ r # post) ?st1 = Inr st' \<and> best_mol st' = Some r"
    using Cons.IH [of ?st1] Cons.prems(2,4,6) by blast
  with t show ?case by simp
qed

lemma most_similar_Inr_D:
  assumes "most_similar lib ms q = Inr r"
  shows "\<exists>qfp pre post s. smiles_fingerprint lib q = Inr qfp \<and> ms = pre @ r # post
           \<and> (\<forall>m\<in>set ms. \<exists>t. test_similarity lib qfp m = Inr t)
           \<and> test_similarity lib qfp r = Inr s \<and> 0 < s \<and> s < 1
           \<and> (\<forall>m\<in>set pre. \<forall>t. test_similarity lib qfp m = Inr t \<longrightarrow> t < 1 \<longrightarrow> t < s)
           \<and> (\<forall>m\<in>set post. \<forall>t. test_similarity lib qfp m = Inr t \<longrightarrow> t < 1 \<longrightarrow> t \<le> s)"
proof -
  let ?st0 = "\<lparr>max_similarity = 0, best_mol = None\<rparr>"
  from assms obtain qfp where fp: "smiles_fingerprint lib q = Inr qfp"
    by (auto simp: most_similar_def split: sum.splits)
  with assms obtain st' where run: "scan lib qfp ms ?st0 = Inr st'" and best: "best_mol st' = Some r"
    by (auto simp: most_similar_def split: sum.splits option.splits)
  have ok: "\<forall>m\<in>set ms. \<exists>t. test_similarity lib qfp m = Inr t"
    using scan_Inr_scores [OF run] .
  from best have "st' \<noteq> ?st0" by auto
  with scan_result [OF run] best obtain pre post where
    "ms = pre @ r # post" "test_similarity lib qfp r = Inr (max_similarity st')"
    "0 < max_similarity st'" "max_similarity st' < 1"
    "\<forall>m\<in>set pre. \<forall>t. test_similarity lib qfp m = Inr t \<longrightarrow> t < 1 \<longrightarrow> t < max_similarity st'"
    "\<forall>m\<in>set post. \<forall>t. test_similarity lib qfp m = Inr t \<longrightarrow> t < 1 \<longrightarrow> t \<le> max_similarity st'"
    by auto
  with fp ok show ?thesis by blast
qed

lemma most_similar_Inr_I:
  assumes fp: "smiles_fingerprint lib q = Inr qfp"
    and ok: "\<forall>m\<in>set (pre @ r # post). \<exists>t. test_similarity lib qfp m = Inr t"
    and s: "test_similarity lib qfp r = Inr s" "0 < s" "s < 1"
    and pre: "\<forall>m\<in>set pre. \<forall>t. test_similarity lib qfp m = Inr t \<longrightarrow> t < 1 \<longrightarrow> t < s"
    and post: "\<forall>m\<in>set post. \<forall>t. test_similarity lib qfp m = Inr t \<longrightarrow> t < 1 \<longrightarrow> t \<le> s"
  shows "most_similar lib (pre @ r # post) q = Inr r"
proof -
  have "max_similarity \<lparr>max_similarity = 0, best_mol = None\<rparr> < s" using s(2) by simp
  from scan_first_best [OF ok s(1) this s(3) pre post] fp
  show ?thesis by (auto simp: most_similar_def)
qed

lemma most_similar_unbound_iff:
  "most_similar lib ms q = Inl UnboundLocalError \<longleftrightarrow>
     (\<exists>qfp. smiles_fingerprint lib q = Inr qfp \<and>
        (\<forall>m\<in>set ms. \<exists>s. test_similarity lib qfp m = Inr s \<and> (s \<le> 0 \<or> 1 \<le> s)))"
proof
  assume u: "most_similar lib ms q = Inl UnboundLocalError"
  let ?st0 = "\<lparr>max_similarity = 0, best_mol = None\<rparr>"
  from u obtain qfp where fp: "smiles_fingerprint lib q = Inr qfp"
    by (auto simp: most_similar_def split: sum.splits)
  have no_unbound: "scan lib qfp xs st \<noteq> Inl UnboundLocalError" for xs st
    by (induction xs arbitrary: st) (auto split: sum.splits)
  from u fp no_unbound obtain st' where run: "scan lib qfp ms ?st0 = Inr st'" and none: "best_mol st' = None"
    by (auto simp: most_similar_def split: sum.splits option.splits)
  from scan_result [OF run] none scan_Inr_scores [OF run] fp
  show "\<exists>qfp. smiles_fingerprint lib q = Inr qfp \<and>
        (\<forall>m\<in>set ms. \<exists>s. test_similarity lib qfp m = Inr s \<and> (s \<le> 0 \<or> 1 \<le> s))"
    by fastforce
next
  assume "\<exists>qfp. smiles_fingerprint lib q = Inr qfp \<and>
        (\<forall>m\<in>set ms. \<exists>s. test_similarity lib qfp m = Inr s \<and> (s \<le> 0 \<or> 1 \<le> s))"
  then obtain qfp where fp: "smiles_fingerprint lib q = Inr qfp"
    and all: "\<forall>m\<in>set ms. \<exists>s. test_similarity lib qfp m = Inr s \<and> (s \<le> 0 \<or> 1 \<le> s)" by blast
  let ?st0 = "\<lparr>max_similarity = 0, best_mol = None\<rparr>"
  have "scan lib qfp ms ?st0 = Inr ?st0" using all by (intro scan_unchanged) simp
  with fp show "most_similar lib ms q = Inl UnboundLocalError" by (simp add: most_similar_def)
qed

text \<open>A scan ends with an exception exactly at the first record whose score the toolkit
  fails to compute, and with that exception.\<close>

lemma scan_Inl_library: "scan lib qfp ms st = Inl err \<Longrightarrow> \<exists>e. err = LibraryError e"
  by (induction ms arbitrary: st) (auto split: sum.splits)

lemma scan_Inl_intro:
  "\<forall>x\<in>set pre. \<exists>s. test_similarity lib qfp x = Inr s \<Longrightarrow>
   test_similarity lib qfp m = Inl e \<Longrightarrow>
   scan lib qfp (pre @ m # post) st = Inl (LibraryError e)"
  by (induction pre arbitrary: st) auto

lemma scan_Inl_elim:
  "scan lib qfp ms st = Inl err \<Longrightarrow>
   \<exists>e pre m post. err = LibraryError e \<and> ms = pre @ m # post
      \<and> (\<forall>x\<in>set pre. \<exists>s. test_similarity lib qfp x = Inr s)
      \<and> test_similarity lib qfp m = Inl e"
proof (induction ms arbitrary: st)
  case Nil
  then show ?case by simp
next
  case (Cons a ms)
  show ?case
  proof (cases "test_similarity lib qfp a")
    case (Inl e)
    with Cons.prems have "err = LibraryError e" by simp
    moreover have "a # ms = [] @ a # ms" by simp
    ultimately show ?thesis using Inl by fastforce
  next
    case (Inr s)
    with Cons.prems obtain st1 where "scan lib qfp ms st1 = Inl err" by auto
    from Cons.IH [OF this] obtain e pre m post where
      d: "err = LibraryError e" "ms = pre @ m # post"
         "\<forall>x\<in>set pre. \<exists>s. test_similarity lib qfp x = Inr s"
         "test_similarity lib qfp m = Inl e" by blast
    have "a # ms = (a # pre) @ m # post" using d(2) by simp
    moreover have "\<forall>x\<in>set (a # pre). \<exists>s. test_similarity lib qfp x = Inr s"
      using d(3) Inr by simp
    ultimately show ?thesis using d(1,4) by blast
  qed
qed

subsection \<open>A run of the notebook\<close>

lemma run_notebook_eq:
  "run_notebook lib content typed nb =
     (let ls = butlast (tl (str_split NL content));
          nb1 = nb\<lparr>lines := ls, stdout := stdout nb @ hd (str_split NL content) @ [NL]\<rparr>;
          ms = map (\<lambda>l. \<lparr>name = str_split TAB l ! 0, smiles = str_split TAB l ! 1\<rparr>) ls;
          nb2 = nb1\<lparr>molecules := ms, query_smiles := typed\<rparr>
      in if tl (str_split NL content) = [] then (Some IndexError, nb1)
         else if \<not> (\<forall>l\<in>set ls. TAB \<in> set l)
           then (Some IndexError,
                 nb1\<lparr>molecules := map (\<lambda>l. \<lparr>name = str_split TAB l ! 0, smiles = str_split TAB l ! 1\<rparr>)
                                       (takeWhile (\<lambda>l. TAB \<in> set l) ls)\<rparr>)
         else (case most_similar lib ms typed of
                 Inl err \<Rightarrow> (Some err, nb2)
               | Inr m \<Rightarrow> (None, report_cell (nb2\<lparr>nb_best_mol := m\<rparr>))))"
  by (simp add: run_notebook_def load_cell_eq parse_cell_eq search_cell_def input_cell_def
      Let_def takeWhile_all split: sum.splits)

subsection \<open>The fold and the calls\<close>

lemma foldl_reference_step_Inl: "foldl reference_step (Inl err) xs = Inl err"
  by (induction xs) (simp_all add: reference_step_def)

lemma scan_foldl:
  "scan lib qfp ms st =
     foldl reference_step (Inr st) (map (\<lambda>m. (m, test_similarity lib qfp m)) ms)"
proof (induction ms arbitrary: st)
  case Nil
  show ?case by simp
next
  case (Cons m ms)
  show ?case
  proof (cases "test_similarity lib qfp m")
    case (Inl e)
    then have "reference_step (Inr st) (m, test_similarity lib qfp m) = Inl (LibraryError e)"
      by (simp add: reference_step_def)
    with Inl show ?thesis by (simp add: foldl_reference_step_Inl)
  next
    case (Inr s)
    then have "reference_step (Inr st) (m, test_similarity lib qfp m) =
        Inr (if max_similarity st < s \<and> s < 1
             then st\<lparr>max_similarity := s, best_mol := Some m\<rparr> else st)"
      by (simp add: reference_step_def)
    with Inr show ?thesis by (simp add: Cons.IH)
  qed
qed

lemma smiles_fingerprint_calls_full:
  "smiles_fingerprint lib s = Inr fp \<Longrightarrow>
   smiles_fingerprint_calls lib s = [MolFromSmiles_call s, RDKFingerprint_call s]"
  by (auto simp: smiles_fingerprint_def smiles_fingerprint_calls_def split: sum.splits)

lemma smiles_fingerprint_calls_prefix:
  "prefix (smiles_fingerprint_calls lib s) [MolFromSmiles_call s, RDKFingerprint_call s]"
  by (simp add: smiles_fingerprint_calls_def split: sum.splits)

lemma test_similarity_calls_full:
  "test_similarity lib qfp m = Inr t \<Longrightarrow> test_similarity_calls lib m = record_calls m"
  by (auto simp: test_similarity_def test_similarity_calls_def smiles_fingerprint_calls_full
      split: sum.splits)

lemma test_similarity_calls_prefix: "prefix (test_similarity_calls lib m) (record_calls m)"
proof (cases "smiles_fingerprint lib (smiles m)")
  case (Inl e)
  have "prefix (smiles_fingerprint_calls lib (smiles m))
          ([MolFromSmiles_call (smiles m), RDKFingerprint_call (smiles m)] @
           [FingerprintSimilarity_call (smiles m)])"
    using smiles_fingerprint_calls_prefix by (rule prefix_prefix)
  with Inl show ?thesis by (simp add: test_similarity_calls_def)
next
  case (Inr fp)
  then show ?thesis
    by (simp add: test_similarity_calls_def smiles_fingerprint_calls_full)
qed

lemma scan_calls_prefix:
  "prefix (scan_calls lib qfp ms) (concat (map (\<lambda>m. record_calls m) ms))"
proof (induction ms)
  case Nil
  show ?case by simp
next
  case (Cons m ms)
  show ?case
  proof (cases "test_similarity lib qfp m")
    case (Inl e)
    have "prefix (test_similarity_calls lib m)
            (record_calls m @ concat (map (\<lambda>m. record_calls m) ms))"
      using test_similarity_calls_prefix by (rule prefix_prefix)
    with Inl show ?thesis by simp
  next
    case (Inr s)
    have "prefix (record_calls m @ scan_calls lib qfp ms)
            (record_calls m @ concat (map (\<lambda>m. record_calls m) ms))"
      using Cons.IH by (simp only: same_prefix_prefix)
    with Inr show ?thesis by (simp add: test_similarity_calls_full)
  qed
qed

lemma scan_calls_full:
  "\<forall>m\<in>set ms. \<exists>t. test_similarity lib qfp m = Inr t \<Longrightarrow>
   scan_calls lib qfp ms = concat (map (\<lambda>m. record_calls m) ms)"
  by (induction ms) (auto simp: test_similarity_calls_full)

lemma most_similar_calls_prefix: "prefix (most_similar_calls lib ms q) (reference_calls ms q)"
proof (cases "smiles_fingerprint lib q")
  case (Inl e)
  have "prefix (smiles_fingerprint_calls lib q)
          ([MolFromSmiles_call q, RDKFingerprint_call q] @
           concat (map (\<lambda>m. record_calls m) ms))"
    using smiles_fingerprint_calls_prefix by (rule prefix_prefix)
  with Inl show ?thesis by (simp add: most_similar_calls_def reference_calls_def)
next
  case (Inr qfp)
  have "prefix ([MolFromSmiles_call q, RDKFingerprint_call q] @ scan_calls lib qfp ms)
          ([MolFromSmiles_call q, RDKFingerprint_call q] @
           concat (map (\<lambda>m. record_calls m) ms))"
    using scan_calls_prefix by (simp only: same_prefix_prefix)
  with Inr show ?thesis
    by (simp add: most_similar_calls_def reference_calls_def smiles_fingerprint_calls_full)
qed

lemma length_reference_calls: "length (reference_calls ms q) = 2 + 3 * length ms"
  by (induction ms) (simp_all add: reference_calls_def)

section \<open>The claims\<close>

subsection \<open>C1: the returned record and the maximal score\<close>

text \<open>
  The search does not return the record with the maximal score over all records: a record
  that scores exactly 1 is skipped on purpose ("Similarity has to be lower than 1 to avoid
  just finding the input variable in the dataset"). With ethane itself in the list, the
  query ethane returns ethanol, which scores 3/4, although ethane scores 1.
\<close>

theorem most_similar_not_overall_max:
  "most_similar example_rdkit [mol ''ethane'' ''CC'', mol ''ethanol'' ''CCO''] ''CC''
     = Inr (mol ''ethanol'' ''CCO'')
   \<and> test_similarity example_rdkit ''CC'' (mol ''ethanol'' ''CCO'') = Inr (3 / 4)
   \<and> test_similarity example_rdkit ''CC'' (mol ''ethane'' ''CC'') = Inr 1
   \<and> (3 / 4 :: real) < 1"
  by (simp add: most_similar_def smiles_fingerprint_def test_similarity_def example_rdkit_def
      mol_def)

text \<open>
  Claim C1, amended: whenever \<^verbatim>\<open>most_similar\<close> returns a record, that record is in the
  list and its similarity to the query equals the maximum of the similarity scores that
  are strictly below 1, taken over all records of the list.
\<close>

theorem most_similar_max_below_one:
  assumes "most_similar lib ms q = Inr r"
  shows "\<exists>qfp s. smiles_fingerprint lib q = Inr qfp \<and> r \<in> set ms
           \<and> test_similarity lib qfp r = Inr s
           \<and> s = Max {t. t < 1 \<and> (\<exists>m\<in>set ms. test_similarity lib qfp m = Inr t)}"
proof -
  from most_similar_Inr_D [OF assms] obtain qfp pre post s where
    d: "smiles_fingerprint lib q = Inr qfp" "ms = pre @ r # post"
       "test_similarity lib qfp r = Inr s" "s < 1"
       "\<forall>m\<in>set pre. \<forall>t. test_similarity lib qfp m = Inr t \<longrightarrow> t < 1 \<longrightarrow> t < s"
       "\<forall>m\<in>set post. \<forall>t. test_similarity lib qfp m = Inr t \<longrightarrow> t < 1 \<longrightarrow> t \<le> s"
    by blast
  let ?A = "{t. t < 1 \<and> (\<exists>m\<in>set ms. test_similarity lib qfp m = Inr t)}"
  have "?A \<subseteq> (\<lambda>m. case test_similarity lib qfp m of Inl e \<Rightarrow> 0 | Inr t \<Rightarrow> t) ` set ms"
    by force
  then have fin: "finite ?A" by (rule finite_surj [rotated]) simp
  have mem: "s \<in> ?A" using d(2,3,4) by auto
  have ub: "t \<le> s" if "t \<in> ?A" for t
  proof -
    from that obtain m where m: "m \<in> set ms" "test_similarity lib qfp m = Inr t" "t < 1" by blast
    from m(1) d(2) consider "m \<in> set pre" | "m = r" | "m \<in> set post" by auto
    then show ?thesis
    proof cases
      case 1 with d(5) m show ?thesis by fastforce
    next
      case 2 with d(3) m show ?thesis by simp
    next
      case 3 with d(6) m show ?thesis by fastforce
    qed
  qed
  have "Max ?A = s" using fin ub mem by (rule Max_eqI)
  with d(1,2,3) show ?thesis by auto
qed

theorem most_similar_max_below_one_witness:
  "most_similar example_rdkit example_molecules ''CC'' = Inr (mol ''ethanol'' ''CCO'')
   \<and> (\<exists>qfp s. smiles_fingerprint example_rdkit ''CC'' = Inr qfp
          \<and> mol ''ethanol'' ''CCO'' \<in> set example_molecules
          \<and> test_similarity example_rdkit qfp (mol ''ethanol'' ''CCO'') = Inr s
          \<and> s = Max {t. t < 1 \<and>
                (\<exists>m\<in>set example_molecules. test_similarity example_rdkit qfp m = Inr t)})"
proof -
  have h: "most_similar example_rdkit example_molecules ''CC'' = Inr (mol ''ethanol'' ''CCO'')"
    by (simp add: most_similar_def smiles_fingerprint_def test_similarity_def
        example_rdkit_def example_molecules_def mol_def)
  from h most_similar_max_below_one [OF h] show ?thesis by (rule conjI)
qed

subsection \<open>C2: scores of 1 are skipped, the first of equal maxima wins\<close>

text \<open>
  Claim C2: \<^verbatim>\<open>most_similar\<close> never returns a record whose similarity to the query is 1,
  and the record it returns is the first one, in list order, that attains the maximal
  similarity among the records scoring strictly below 1: the list splits as
  \<open>pre @ r # post\<close> where \<open>r\<close> is the returned record with score \<open>s < 1\<close>, every record
  of \<open>pre\<close> that scores below 1 scores strictly less than \<open>s\<close>, and every record of
  \<open>post\<close> that scores below 1 scores at most \<open>s\<close>. The statement is an equivalence: the
  search returns \<open>r\<close> exactly when the toolkit raised nothing, \<open>r\<close> is that first best
  record and its score is positive.
\<close>

theorem most_similar_first_best_below_one:
  "most_similar lib ms q = Inr r \<longleftrightarrow>
     (\<exists>qfp pre post s. smiles_fingerprint lib q = Inr qfp \<and> ms = pre @ r # post
           \<and> (\<forall>m\<in>set ms. \<exists>t. test_similarity lib qfp m = Inr t)
           \<and> test_similarity lib qfp r = Inr s \<and> 0 < s \<and> s < 1
           \<and> (\<forall>m\<in>set pre. \<forall>t. test_similarity lib qfp m = Inr t \<longrightarrow> t < 1 \<longrightarrow> t < s)
           \<and> (\<forall>m\<in>set post. \<forall>t. test_similarity lib qfp m = Inr t \<longrightarrow> t < 1 \<longrightarrow> t \<le> s))"
proof
  assume "most_similar lib ms q = Inr r"
  then show "\<exists>qfp pre post s. smiles_fingerprint lib q = Inr qfp \<and> ms = pre @ r # post
           \<and> (\<forall>m\<in>set ms. \<exists>t. test_similarity lib qfp m = Inr t)
           \<and> test_similarity lib qfp r = Inr s \<and> 0 < s \<and> s < 1
           \<and> (\<forall>m\<in>set pre. \<forall>t. test_similarity lib qfp m = Inr t \<longrightarrow> t < 1 \<longrightarrow> t < s)
           \<and> (\<forall>m\<in>set post. \<forall>t. test_similarity lib qfp m = Inr t \<longrightarrow> t < 1 \<longrightarrow> t \<le> s)"
    by (rule most_similar_Inr_D)
next
  assume "\<exists>qfp pre post s. smiles_fingerprint lib q = Inr qfp \<and> ms = pre @ r # post
           \<and> (\<forall>m\<in>set ms. \<exists>t. test_similarity lib qfp m = Inr t)
           \<and> test_similarity lib qfp r = Inr s \<and> 0 < s \<and> s < 1
           \<and> (\<forall>m\<in>set pre. \<forall>t. test_similarity lib qfp m = Inr t \<longrightarrow> t < 1 \<longrightarrow> t < s)
           \<and> (\<forall>m\<in>set post. \<forall>t. test_similarity lib qfp m = Inr t \<longrightarrow> t < 1 \<longrightarrow> t \<le> s)"
  then obtain qfp pre post s where d: "smiles_fingerprint lib q = Inr qfp" "ms = pre @ r # post"
      "\<forall>m\<in>set ms. \<exists>t. test_similarity lib qfp m = Inr t"
      "test_similarity lib qfp r = Inr s" "0 < s" "s < 1"
      "\<forall>m\<in>set pre. \<forall>t. test_similarity lib qfp m = Inr t \<longrightarrow> t < 1 \<longrightarrow> t < s"
      "\<forall>m\<in>set post. \<forall>t. test_similarity lib qfp m = Inr t \<longrightarrow> t < 1 \<longrightarrow> t \<le> s"
    by blast
  from d(3) have "\<forall>m\<in>set (pre @ r # post). \<exists>t. test_similarity lib qfp m = Inr t"
    unfolding d(2) .
  from most_similar_Inr_I [OF d(1) this d(4,5,6,7,8)]
  show "most_similar lib ms q = Inr r" unfolding d(2) .
qed

theorem most_similar_first_best_below_one_witness:
  "most_similar example_rdkit example_molecules ''CC'' = Inr (mol ''ethanol'' ''CCO'')
   \<and> (\<exists>qfp pre post s. smiles_fingerprint example_rdkit ''CC'' = Inr qfp
         \<and> example_molecules = pre @ mol ''ethanol'' ''CCO'' # post
         \<and> (\<forall>m\<in>set example_molecules. \<exists>t. test_similarity example_rdkit qfp m = Inr t)
         \<and> test_similarity example_rdkit qfp (mol ''ethanol'' ''CCO'') = Inr s \<and> 0 < s \<and> s < 1
         \<and> (\<forall>m\<in>set pre. \<forall>t. test_similarity example_rdkit qfp m = Inr t \<longrightarrow> t < 1 \<longrightarrow> t < s)
         \<and> (\<forall>m\<in>set post. \<forall>t. test_similarity example_rdkit qfp m = Inr t \<longrightarrow> t < 1 \<longrightarrow> t \<le> s))"
proof -
  have h: "most_similar example_rdkit example_molecules ''CC'' = Inr (mol ''ethanol'' ''CCO'')"
    by (simp add: most_similar_def smiles_fingerprint_def test_similarity_def
        example_rdkit_def example_molecules_def mol_def)
  from h most_similar_first_best_below_one
         [of example_rdkit example_molecules "''CC''" "mol ''ethanol'' ''CCO''"]
  show ?thesis by blast
qed

subsection \<open>C3: no candidate, no binding\<close>

text \<open>
  Claim C3: when the query has a fingerprint and the record list is empty, or every record
  scores 0 or exactly 1 against the query, \<^verbatim>\<open>best_mol\<close> is never assigned and
  \<^verbatim>\<open>most_similar\<close> ends with UnboundLocalError instead of returning a record.
\<close>

theorem most_similar_unbound_local:
  assumes fp: "smiles_fingerprint lib q = Inr qfp"
    and all: "ms = [] \<or> (\<forall>m\<in>set ms. test_similarity lib qfp m = Inr 0 \<or> test_similarity lib qfp m = Inr 1)"
  shows "most_similar lib ms q = Inl UnboundLocalError"
proof -
  let ?st0 = "\<lparr>max_similarity = 0, best_mol = None\<rparr>"
  have "\<forall>m\<in>set ms. \<exists>s. test_similarity lib qfp m = Inr s \<and> (s \<le> max_similarity ?st0 \<or> 1 \<le> s)"
    using all by fastforce
  then have "scan lib qfp ms ?st0 = Inr ?st0" by (rule scan_unchanged)
  with fp show ?thesis by (simp add: most_similar_def)
qed

theorem most_similar_unbound_local_witness:
  "smiles_fingerprint example_rdkit ''CCO'' = Inr ''CCO''
   \<and> test_similarity example_rdkit ''CCO'' (mol ''ammonia'' ''N'') = Inr 0
   \<and> test_similarity example_rdkit ''CCO'' (mol ''ethanol'' ''CCO'') = Inr 1
   \<and> most_similar example_rdkit [mol ''ammonia'' ''N'', mol ''ethanol'' ''CCO''] ''CCO''
       = Inl UnboundLocalError"
proof -
  have fp: "smiles_fingerprint example_rdkit ''CCO'' = Inr ''CCO''"
    by (simp add: smiles_fingerprint_def example_rdkit_def)
  have s0: "test_similarity example_rdkit ''CCO'' (mol ''ammonia'' ''N'') = Inr 0"
    and s1: "test_similarity example_rdkit ''CCO'' (mol ''ethanol'' ''CCO'') = Inr 1"
    by (simp_all add: test_similarity_def smiles_fingerprint_def example_rdkit_def mol_def)
  from s0 s1 have "[mol ''ammonia'' ''N'', mol ''ethanol'' ''CCO''] = [] \<or>
     (\<forall>m\<in>set [mol ''ammonia'' ''N'', mol ''ethanol'' ''CCO''].
          test_similarity example_rdkit ''CCO'' m = Inr 0
        \<or> test_similarity example_rdkit ''CCO'' m = Inr 1)" by simp
  from fp s0 s1 most_similar_unbound_local [OF fp this] show ?thesis by blast
qed

subsection \<open>C4: where failures come from\<close>

text \<open>
  Not every failure of a run comes from the toolkit. A file whose data line has no tab
  makes the parsing cell fail with IndexError, raised by the notebook's own indexing
  \<^verbatim>\<open>elements[1]\<close> before any toolkit call is made.
\<close>

theorem run_fails_with_own_IndexError:
  "fst (run_notebook example_rdkit
          (''Name'' @ [TAB] @ ''Smiles'' @ [NL] @ ''water O'' @ [NL]) ''O'' empty_notebook)
     = Some IndexError"
  by (simp add: run_notebook_eq Let_def)

text \<open>
  Claim C4, amended: the notebook has no exception handler and no recovery. The search
  ends with a toolkit error \<open>e\<close> exactly when a toolkit call raised \<open>e\<close> and every call
  before it succeeded (the query's fingerprint first, then the records in list order), so
  the error is passed on unchanged; loading and parsing never end with a toolkit error; and
  a run ends with a toolkit error exactly when loading and parsing succeed and the search
  on the parsed records ends with it. Failures also arise in the notebook's own
  statements, as IndexError in parsing shows.
\<close>

theorem library_errors_propagate_unchanged:
  "(most_similar lib ms q = Inl (LibraryError e) \<longleftrightarrow>
      smiles_fingerprint lib q = Inl e
    \<or> (\<exists>qfp pre m post. smiles_fingerprint lib q = Inr qfp \<and> ms = pre @ m # post
          \<and> (\<forall>x\<in>set pre. \<exists>s. test_similarity lib qfp x = Inr s)
          \<and> test_similarity lib qfp m = Inl e))
   \<and> fst (load_cell content nb) \<noteq> Some (LibraryError e)
   \<and> fst (parse_cell nb) \<noteq> Some (LibraryError e)
   \<and> (fst (run_notebook lib content typed nb) = Some (LibraryError e) \<longleftrightarrow>
        tl (str_split NL content) \<noteq> []
      \<and> (\<forall>l\<in>set (butlast (tl (str_split NL content))). TAB \<in> set l)
      \<and> most_similar lib
            (map (\<lambda>l. \<lparr>name = str_split TAB l ! 0, smiles = str_split TAB l ! 1\<rparr>)
               (butlast (tl (str_split NL content)))) typed = Inl (LibraryError e))"
proof (intro conjI)
  show "most_similar lib ms q = Inl (LibraryError e) \<longleftrightarrow>
      smiles_fingerprint lib q = Inl e
    \<or> (\<exists>qfp pre m post. smiles_fingerprint lib q = Inr qfp \<and> ms = pre @ m # post
          \<and> (\<forall>x\<in>set pre. \<exists>s. test_similarity lib qfp x = Inr s)
          \<and> test_similarity lib qfp m = Inl e)"
  proof (cases "smiles_fingerprint lib q")
    case (Inl e')
    then show ?thesis by (simp add: most_similar_def)
  next
    case (Inr qfp)
    let ?st0 = "\<lparr>max_similarity = 0, best_mol = None\<rparr>"
    have "most_similar lib ms q = Inl (LibraryError e) \<longleftrightarrow> scan lib qfp ms ?st0 = Inl (LibraryError e)"
      using Inr by (auto simp: most_similar_def split: sum.splits option.splits)
    also have "\<dots> \<longleftrightarrow> (\<exists>pre m post. ms = pre @ m # post
          \<and> (\<forall>x\<in>set pre. \<exists>s. test_similarity lib qfp x = Inr s)
          \<and> test_similarity lib qfp m = Inl e)"
    proof
      assume "scan lib qfp ms ?st0 = Inl (LibraryError e)"
      from scan_Inl_elim [OF this] show "\<exists>pre m post. ms = pre @ m # post
          \<and> (\<forall>x\<in>set pre. \<exists>s. test_similarity lib qfp x = Inr s)
          \<and> test_similarity lib qfp m = Inl e" by auto
    next
      assume "\<exists>pre m post. ms = pre @ m # post
          \<and> (\<forall>x\<in>set pre. \<exists>s. test_similarity lib qfp x = Inr s)
          \<and> test_similarity lib qfp m = Inl e"
      then obtain pre m post where d: "ms = pre @ m # post"
          "\<forall>x\<in>set pre. \<exists>s. test_similarity lib qfp x = Inr s"
          "test_similarity lib qfp m = Inl e" by blast
      show "scan lib qfp ms ?st0 = Inl (LibraryError e)"
        unfolding d(1) using d(2,3) by (rule scan_Inl_intro)
    qed
    finally show ?thesis using Inr by simp
  qed
  show "fst (load_cell content nb) \<noteq> Some (LibraryError e)"
    by (simp add: load_cell_eq)
  show "fst (parse_cell nb) \<noteq> Some (LibraryError e)"
    by (simp add: parse_cell_eq)
  show "fst (run_notebook lib content typed nb) = Some (LibraryError e) \<longleftrightarrow>
        tl (str_split NL content) \<noteq> []
      \<and> (\<forall>l\<in>set (butlast (tl (str_split NL content))). TAB \<in> set l)
      \<and> most_similar lib
            (map (\<lambda>l. \<lparr>name = str_split TAB l ! 0, smiles = str_split TAB l ! 1\<rparr>)
               (butlast (tl (str_split NL content)))) typed = Inl (LibraryError e)"
    by (auto simp: run_notebook_eq Let_def split: sum.splits)
qed

theorem library_errors_propagate_unchanged_witness:
  "most_similar example_rdkit [mol ''water'' ''O'', mol ''nothing'' [], mol ''ammonia'' ''N''] ''O''
     = Inl (LibraryError ''ArgumentError'')
   \<and> (\<exists>qfp pre m post. smiles_fingerprint example_rdkit ''O'' = Inr qfp
         \<and> [mol ''water'' ''O'', mol ''nothing'' [], mol ''ammonia'' ''N''] = pre @ m # post
         \<and> (\<forall>x\<in>set pre. \<exists>s. test_similarity example_rdkit qfp x = Inr s)
         \<and> test_similarity example_rdkit qfp m = Inl ''ArgumentError'')"
proof -
  have h: "most_similar example_rdkit
             [mol ''water'' ''O'', mol ''nothing'' [], mol ''ammonia'' ''N''] ''O''
           = Inl (LibraryError ''ArgumentError'')"
    by (simp add: most_similar_def smiles_fingerprint_def test_similarity_def
        example_rdkit_def mol_def)
  have fp: "smiles_fingerprint example_rdkit ''O'' \<noteq> Inl ''ArgumentError''"
    by (simp add: smiles_fingerprint_def example_rdkit_def)
  from h fp library_errors_propagate_unchanged [of example_rdkit
      "[mol ''water'' ''O'', mol ''nothing'' [], mol ''ammonia'' ''N'']" "''O''"
      "''ArgumentError''"]
  show ?thesis by blast
qed

subsection \<open>C5: loading and parsing\<close>

text \<open>
  Loading does not succeed on every file content: a file without any newline has a single
  line, and after the header is deleted \<^verbatim>\<open>del lines[-1]\<close> raises IndexError on the empty
  list.
\<close>

theorem load_fails_without_newline:
  "fst (load_cell (''Name'' @ [TAB] @ ''Smiles'') empty_notebook) = (Some IndexError :: unit error option)"
  by (simp add: load_cell_eq)

text \<open>
  Claim C5, amended: for every file content that has at least two lines (at least one
  newline) and whose lines between the first and the last each contain a tab, loading and
  parsing succeed: the content is split on newlines, the first and the last line are
  deleted, and each remaining line is split on tabs into the record whose name is field 0
  and whose SMILES is field 1, further fields being dropped; the number of records is the
  number of lines minus two.
\<close>

theorem load_and_parse_records:
  assumes len: "2 \<le> length (str_split NL content)"
    and tabs: "\<forall>l\<in>set (butlast (tl (str_split NL content))). TAB \<in> set l"
  shows "\<exists>nb1 nb2. load_cell content nb = (None :: 'e error option, nb1)
           \<and> lines nb1 = butlast (tl (str_split NL content))
           \<and> parse_cell nb1 = (None :: 'e error option, nb2)
           \<and> molecules nb2 =
               map (\<lambda>l. \<lparr>name = str_split TAB l ! 0, smiles = str_split TAB l ! 1\<rparr>)
                 (butlast (tl (str_split NL content)))
           \<and> (\<forall>l\<in>set (lines nb1). 2 \<le> length (str_split TAB l))
           \<and> length (molecules nb2) = length (str_split NL content) - 2"
proof -
  from len have ne: "tl (str_split NL content) \<noteq> []"
    by (cases "str_split NL content" rule: list.exhaust; cases "tl (str_split NL content)") auto
  have two: "2 \<le> length (str_split TAB l)" if "l \<in> set (butlast (tl (str_split NL content)))" for l
  proof -
    from that tabs have "TAB \<in> set l" by blast
    then show ?thesis using str_split_two_fields [of TAB l] by auto
  qed
  show ?thesis
    using ne tabs two by (simp add: load_cell_eq parse_cell_eq takeWhile_all)
qed

theorem load_and_parse_records_witness:
  "2 \<le> length (str_split NL example_file)
   \<and> butlast (tl (str_split NL example_file)) =
       [''methane'' @ [TAB] @ ''C'', ''ethanol'' @ [TAB] @ ''CCO'' @ [TAB] @ ''46.07'',
        ''propane'' @ [TAB] @ ''CCC'']
   \<and> map (\<lambda>l. \<lparr>name = str_split TAB l ! 0, smiles = str_split TAB l ! 1\<rparr>)
         (butlast (tl (str_split NL example_file))) =
       [mol ''methane'' ''C'', mol ''ethanol'' ''CCO'', mol ''propane'' ''CCC'']
   \<and> (\<exists>nb1 nb2. load_cell example_file empty_notebook = (None :: unit error option, nb1)
           \<and> lines nb1 = butlast (tl (str_split NL example_file))
           \<and> parse_cell nb1 = (None :: unit error option, nb2)
           \<and> molecules nb2 =
               map (\<lambda>l. \<lparr>name = str_split TAB l ! 0, smiles = str_split TAB l ! 1\<rparr>)
                 (butlast (tl (str_split NL example_file)))
           \<and> (\<forall>l\<in>set (lines nb1). 2 \<le> length (str_split TAB l))
           \<and> length (molecules nb2) = length (str_split NL example_file) - 2)"
proof -
  have len: "2 \<le> length (str_split NL example_file)"
    by (simp add: example_file_lines)
  have body: "butlast (tl (str_split NL example_file)) =
       [''methane'' @ [TAB] @ ''C'', ''ethanol'' @ [TAB] @ ''CCO'' @ [TAB] @ ''46.07'',
        ''propane'' @ [TAB] @ ''CCC'']"
    by (simp add: example_file_lines)
  have tabs: "\<forall>l\<in>set (butlast (tl (str_split NL example_file))). TAB \<in> set l"
    by (simp add: body)
  have recs: "map (\<lambda>l. \<lparr>name = str_split TAB l ! 0, smiles = str_split TAB l ! 1\<rparr>)
         (butlast (tl (str_split NL example_file))) =
       [mol ''methane'' ''C'', mol ''ethanol'' ''CCO'', mol ''propane'' ''CCC'']"
    by (simp add: body mol_def)
  from len body recs load_and_parse_records [OF len tabs, of empty_notebook, where ?'e = unit]
  show ?thesis by blast
qed

subsection \<open>C6: the record list is only read\<close>

text \<open>
  Claim C6: no cell after the parsing loop changes the list \<^verbatim>\<open>molecules\<close>: it is the
  same list after the query is read, after the search cell has run, whether
  \<^verbatim>\<open>most_similar\<close> returned or raised, and after the report. (The record that the search
  returns is an element of the list; the notebook only reads its fields.)
\<close>

theorem molecules_never_mutated:
  "molecules (input_cell typed nb) = molecules nb
   \<and> molecules (snd (search_cell lib nb)) = molecules nb
   \<and> molecules (report_cell nb) = molecules nb"
  by (simp add: input_cell_def search_cell_def report_cell_def print_def split: sum.splits)

subsection \<open>C7: the search is a linear scan\<close>

text \<open>
  Claim C7: \<^verbatim>\<open>most_similar\<close> equals the reference left fold over the record list. The
  toolkit calls it makes are always an initial part of the reference sequence (the two
  calls for the query, then the three calls for each record, in list order, once each),
  and they are the whole sequence unless a toolkit call raised.
\<close>

theorem most_similar_is_linear_scan:
  "most_similar lib ms q = most_similar_reference lib ms q
   \<and> prefix (most_similar_calls lib ms q) (reference_calls ms q)
   \<and> ((\<forall>e. most_similar lib ms q \<noteq> Inl (LibraryError e)) \<longrightarrow>
        most_similar_calls lib ms q = reference_calls ms q)"
proof (intro conjI impI)
  show "most_similar lib ms q = most_similar_reference lib ms q"
    by (simp add: most_similar_def most_similar_reference_def scan_foldl split: sum.splits)
  show "prefix (most_similar_calls lib ms q) (reference_calls ms q)"
    by (rule most_similar_calls_prefix)
  assume ok: "\<forall>e. most_similar lib ms q \<noteq> Inl (LibraryError e)"
  then obtain qfp where fp: "smiles_fingerprint lib q = Inr qfp"
    by (cases "smiles_fingerprint lib q") (auto simp: most_similar_def)
  let ?st0 = "\<lparr>max_similarity = 0, best_mol = None\<rparr>"
  have "\<exists>st'. scan lib qfp ms ?st0 = Inr st'"
  proof (cases "scan lib qfp ms ?st0")
    case (Inl err)
    with scan_Inl_library [OF Inl] ok fp show ?thesis by (auto simp: most_similar_def)
  next
    case (Inr st')
    then show ?thesis by blast
  qed
  then obtain st' where "scan lib qfp ms ?st0 = Inr st'" ..
  then have "\<forall>m\<in>set ms. \<exists>t. test_similarity lib qfp m = Inr t"
    by (rule scan_Inr_scores)
  then have "scan_calls lib qfp ms = concat (map (\<lambda>m. record_calls m) ms)"
    by (rule scan_calls_full)
  with fp show "most_similar_calls lib ms q = reference_calls ms q"
    by (simp add: most_similar_calls_def reference_calls_def smiles_fingerprint_calls_full)
qed

theorem most_similar_is_linear_scan_witness:
  "most_similar example_rdkit example_molecules ''CC'' = Inr (mol ''ethanol'' ''CCO'')
   \<and> most_similar_reference example_rdkit example_molecules ''CC'' = Inr (mol ''ethanol'' ''CCO'')
   \<and> most_similar_calls example_rdkit example_molecules ''CC''
       = reference_calls example_molecules ''CC''"
proof -
  have h: "most_similar example_rdkit example_molecules ''CC'' = Inr (mol ''ethanol'' ''CCO'')"
    by (simp add: most_similar_def smiles_fingerprint_def test_similarity_def
        example_rdkit_def example_molecules_def mol_def)
  then have "\<forall>e. most_similar example_rdkit example_molecules ''CC'' \<noteq> Inl (LibraryError e)"
    by simp
  with h most_similar_is_linear_scan [of example_rdkit example_molecules "''CC''"] show ?thesis by simp
qed

subsection \<open>C8: the search terminates\<close>

text \<open>
  Claim C8: \<^verbatim>\<open>most_similar\<close> is total. Its loop is a structural recursion over the
  record list, so for every toolkit, list and query it ends, either with an exception or
  with a record of the list, after at most two toolkit calls for the query and three for
  each record.
\<close>

theorem most_similar_total:
  "((\<exists>err. most_similar lib ms q = Inl err) \<or> (\<exists>r. most_similar lib ms q = Inr r \<and> r \<in> set ms))
   \<and> length (most_similar_calls lib ms q) \<le> 2 + 3 * length ms"
proof
  show "(\<exists>err. most_similar lib ms q = Inl err) \<or> (\<exists>r. most_similar lib ms q = Inr r \<and> r \<in> set ms)"
  proof (cases "most_similar lib ms q")
    case (Inl err)
    then show ?thesis by blast
  next
    case (Inr r)
    from most_similar_Inr_D [OF Inr] have "r \<in> set ms" by auto
    with Inr show ?thesis by blast
  qed
  have "length (most_similar_calls lib ms q) \<le> length (reference_calls ms q)"
    using most_similar_calls_prefix by (rule prefix_length_le)
  then show "length (most_similar_calls lib ms q) \<le> 2 + 3 * length ms"
    by (simp add: length_reference_calls)
qed

subsection \<open>C9: determinism\<close>

text \<open>
  Claim C9: a run is determined by the toolkit, the file content and the line typed at
  the console. Started from any two notebooks, whatever their globals hold, two runs end
  alike; when they end without an exception, the record lists, the best matches and the
  text printed during the run are the same.
\<close>

theorem run_notebook_deterministic:
  "fst (run_notebook lib content typed nb1) = fst (run_notebook lib content typed nb2)
   \<and> (fst (run_notebook lib content typed nb1) = None \<longrightarrow>
        molecules (snd (run_notebook lib content typed nb1))
          = molecules (snd (run_notebook lib content typed nb2))
      \<and> nb_best_mol (snd (run_notebook lib content typed nb1))
          = nb_best_mol (snd (run_notebook lib content typed nb2))
      \<and> drop (length (stdout nb1)) (stdout (snd (run_notebook lib content typed nb1)))
          = drop (length (stdout nb2)) (stdout (snd (run_notebook lib content typed nb2))))"
  by (simp add: run_notebook_eq Let_def report_cell_def print_def split: sum.splits)

theorem run_notebook_deterministic_witness:
  "fst (run_notebook example_rdkit example_file ''CC'' empty_notebook) = None
   \<and> fst (run_notebook example_rdkit example_file ''CC'' used_notebook) = None
   \<and> molecules (snd (run_notebook example_rdkit example_file ''CC'' empty_notebook))
       = molecules (snd (run_notebook example_rdkit example_file ''CC'' used_notebook))
   \<and> nb_best_mol (snd (run_notebook example_rdkit example_file ''CC'' empty_notebook))
       = nb_best_mol (snd (run_notebook example_rdkit example_file ''CC'' used_notebook))
   \<and> nb_best_mol (snd (run_notebook example_rdkit example_file ''CC'' used_notebook))
       = mol ''ethanol'' ''CCO''
   \<and> drop (length (stdout empty_notebook))
        (stdout (snd (run_notebook example_rdkit example_file ''CC'' empty_notebook)))
       = drop (length (stdout used_notebook))
           (stdout (snd (run_notebook example_rdkit example_file ''CC'' used_notebook)))"
proof -
  have ms: "most_similar example_rdkit
              [mol ''methane'' ''C'', mol ''ethanol'' ''CCO'', mol ''propane'' ''CCC''] ''CC''
            = Inr (mol ''ethanol'' ''CCO'')"
    by (simp add: most_similar_def smiles_fingerprint_def test_similarity_def
        example_rdkit_def mol_def)
  have run: "run_notebook example_rdkit example_file ''CC'' used_notebook =
     (None, report_cell (used_notebook
        \<lparr>lines := [''methane'' @ [TAB] @ ''C'', ''ethanol'' @ [TAB] @ ''CCO'' @ [TAB] @ ''46.07'',
                   ''propane'' @ [TAB] @ ''CCC''],
         stdout := stdout used_notebook @ ''Name'' @ [TAB] @ ''Smiles'' @ [NL],
         molecules := [mol ''methane'' ''C'', mol ''ethanol'' ''CCO'', mol ''propane'' ''CCC''],
         query_smiles := ''CC'', nb_best_mol := mol ''ethanol'' ''CCO''\<rparr>))"
    using ms by (simp add: run_notebook_eq Let_def example_file_lines mol_def)
  have h: "fst (run_notebook example_rdkit example_file ''CC'' used_notebook) = None"
    and b: "nb_best_mol (snd (run_notebook example_rdkit example_file ''CC'' used_notebook))
       = mol ''ethanol'' ''CCO''"
    by (simp_all add: run report_cell_def print_def)
  from h b run_notebook_deterministic [of example_rdkit example_file "''CC''" empty_notebook used_notebook]
  show ?thesis by simp
qed

subsection \<open>C10: a data line needs a tab\<close>

text \<open>
  Claim C10: when a line between the first and the last has no tab, loading succeeds and
  the parsing loop raises IndexError, so the run ends there. The list holds the records of
  the lines before the first such line, each with both fields.
\<close>

theorem parse_fails_without_tab:
  assumes "l \<in> set (butlast (tl (str_split NL content)))" and "TAB \<notin> set l"
  shows "\<exists>nb1. load_cell content nb = (None :: 'e error option, nb1)
           \<and> fst (parse_cell nb1) = (Some IndexError :: 'e error option)
           \<and> molecules (snd (parse_cell nb1 :: 'e error option \<times> notebook)) =
               map (\<lambda>l. \<lparr>name = str_split TAB l ! 0, smiles = str_split TAB l ! 1\<rparr>)
                 (takeWhile (\<lambda>l. TAB \<in> set l) (butlast (tl (str_split NL content))))
           \<and> fst (run_notebook lib content typed nb) = Some IndexError"
proof -
  from assms(1) have ne: "tl (str_split NL content) \<noteq> []" by auto
  from assms have bad: "\<not> (\<forall>l\<in>set (butlast (tl (str_split NL content))). TAB \<in> set l)"
    by blast
  show ?thesis using ne bad by (simp add: load_cell_eq parse_cell_eq run_notebook_eq Let_def)
qed

theorem parse_fails_without_tab_witness:
  "''water O'' \<in> set (butlast (tl (str_split NL
       (''Name'' @ [TAB] @ ''Smiles'' @ [NL] @ ''methane'' @ [TAB] @ ''C'' @ [NL] @
        ''water O'' @ [NL]))))
   \<and> TAB \<notin> set ''water O''
   \<and> (\<exists>nb1. load_cell (''Name'' @ [TAB] @ ''Smiles'' @ [NL] @ ''methane'' @ [TAB] @ ''C'' @ [NL] @
        ''water O'' @ [NL]) empty_notebook = (None :: string error option, nb1)
           \<and> fst (parse_cell nb1) = (Some IndexError :: string error option)
           \<and> molecules (snd (parse_cell nb1 :: string error option \<times> notebook)) =
               map (\<lambda>l. \<lparr>name = str_split TAB l ! 0, smiles = str_split TAB l ! 1\<rparr>)
                 (takeWhile (\<lambda>l. TAB \<in> set l) (butlast (tl (str_split NL
                    (''Name'' @ [TAB] @ ''Smiles'' @ [NL] @ ''methane'' @ [TAB] @ ''C'' @ [NL] @
                     ''water O'' @ [NL])))))
           \<and> fst (run_notebook example_rdkit
                (''Name'' @ [TAB] @ ''Smiles'' @ [NL] @ ''methane'' @ [TAB] @ ''C'' @ [NL] @
                 ''water O'' @ [NL]) ''O'' empty_notebook) = Some IndexError)"
proof -
  have mem: "''water O'' \<in> set (butlast (tl (str_split NL
       (''Name'' @ [TAB] @ ''Smiles'' @ [NL] @ ''methane'' @ [TAB] @ ''C'' @ [NL] @
        ''water O'' @ [NL]))))"
    by simp
  have notab: "TAB \<notin> set ''water O''" by simp
  from mem notab parse_fails_without_tab [OF mem notab, of empty_notebook example_rdkit "''O''"]
  show ?thesis by blast
qed

end
